theory Spec2Isabelle
  imports Main
begin

section \<open>Strings and the line model\<close>

text \<open>
  A JavaScript string is modelled as a \<^typ>\<open>string\<close>: one \<^typ>\<open>char\<close> per UTF-16 code unit,
  restricted to the code units below 256. \<open>length\<close> is the source's \<open>.length\<close>.
\<close>

abbreviation NL :: char where
  "NL \<equiv> CHR 0x0A"

abbreviation SQ :: char where
  "SQ \<equiv> CHR 0x27"

abbreviation DQ :: char where
  "DQ \<equiv> CHR 0x22"

abbreviation BT :: char where
  "BT \<equiv> CHR 0x60"

abbreviation DEL :: char where
  "DEL \<equiv> CHR 0x7F"

text \<open>\<open>str.split(sep)\<close> for a one-character separator: the pieces between separators; the
  empty string gives one empty piece.\<close>

fun splitOn :: "char \<Rightarrow> string \<Rightarrow> string list" where
  "splitOn sep [] = [[]]"
| "splitOn sep (c # cs) =
     (if c = sep then [] # splitOn sep cs
      else (case splitOn sep cs of [] \<Rightarrow> [[c]] | l # ls \<Rightarrow> (c # l) # ls))"

definition splitLines :: "string \<Rightarrow> string list" where
  "splitLines text = splitOn NL text"

text \<open>\<open>pieces.join(sep)\<close>.\<close>

fun joinWith :: "string \<Rightarrow> string list \<Rightarrow> string" where
  "joinWith sep [] = []"
| "joinWith sep [x] = x"
| "joinWith sep (x # y # ys) = x @ sep @ joinWith sep (y # ys)"

definition joinLines :: "string list \<Rightarrow> string" where
  "joinLines ls = joinWith [NL] ls"

section \<open>Markdown cue renderer\<close>

text \<open>\<open>escapeHTML\<close>: \<open>str.replace(/[&<>"']/g, c => table[c])\<close>.\<close>

definition escapeChar :: "char \<Rightarrow> string" where
  "escapeChar c =
     (if c = CHR ''&'' then ''&amp;''
      else if c = CHR ''<'' then ''&lt;''
      else if c = CHR ''>'' then ''&gt;''
      else if c = DQ then ''&quot;''
      else if c = SQ then ''&#39;''
      else [c])"

definition escapeHTML :: "string \<Rightarrow> string" where
  "escapeHTML str = concat (map escapeChar str)"

text \<open>The regular-expression class \<open>\s\<close> on the code units of the model.\<close>

definition isSpace :: "char \<Rightarrow> bool" where
  "isSpace c \<longleftrightarrow> c \<in> {CHR 0x09, CHR 0x0A, CHR 0x0B, CHR 0x0C, CHR 0x0D, CHR 0x20, CHR 0xA0}"

text \<open>The regular-expression atom \<open>.\<close>: any code unit but a line terminator.\<close>

definition isDot :: "char \<Rightarrow> bool" where
  "isDot c \<longleftrightarrow> c \<noteq> CHR 0x0A \<and> c \<noteq> CHR 0x0D"

text \<open>\<open>/^#\s/.test(line)\<close>.\<close>

definition isHeading :: "string \<Rightarrow> bool" where
  "isHeading line = (case line of c # d # _ \<Rightarrow> c = CHR ''#'' \<and> isSpace d | _ \<Rightarrow> False)"

text \<open>
  \<open>(.+?)\*\*\<close> tried on the text that follows an opening \<open>**\<close>: the lazy group takes one
  more code unit at a time until \<open>**\<close> follows; the result is the captured group.
\<close>

fun lazyBold :: "string \<Rightarrow> string \<Rightarrow> string option" where
  "lazyBold acc [] = None"
| "lazyBold acc (c # cs) =
     (if \<not> isDot c then None
      else if take 2 cs = ''**'' then Some (acc @ [c])
      else lazyBold (acc @ [c]) cs)"

text \<open>\<open>/\*\*(.+?)\*\*/\<close> matched at the start of the string: the captured group.\<close>

definition matchBold :: "string \<Rightarrow> string option" where
  "matchBold s = (if take 2 s = ''**'' then lazyBold [] (drop 2 s) else None)"

text \<open>\<open>/`([^`]+)`/\<close> matched at the start of the string: the captured group.\<close>

definition matchCode :: "string \<Rightarrow> string option" where
  "matchCode s =
     (case s of
        [] \<Rightarrow> None
      | c # cs \<Rightarrow>
          (let body = takeWhile (\<lambda>x. x \<noteq> BT) cs
           in if c = BT \<and> body \<noteq> [] \<and> take 1 (drop (length body) cs) = [BT]
              then Some body else None))"

definition markerSpan :: "string \<Rightarrow> string" where
  "markerSpan inner = ''<span style='opacity:0.5;color:#94a3b8;user-select:none;'>'' @ inner @ ''</span>''"

definition boldTemplate :: "bool \<Rightarrow> string \<Rightarrow> string" where
  "boldTemplate isActive boldText =
     (if isActive
      then markerSpan ''**'' @ ''<strong style='font-weight:800;'>'' @ boldText @ ''</strong>''
           @ markerSpan ''**''
      else ''<strong style='font-weight:800;'>'' @ boldText @ ''</strong>'')"

text \<open>The template of the active branch has the character U+007F inside each of its two
  marker spans.\<close>

definition codeTemplate :: "bool \<Rightarrow> string \<Rightarrow> string" where
  "codeTemplate isActive codeText =
     (if isActive
      then markerSpan [DEL] @ ''<code style='background:#f1f5f9;padding:2px 4px;border-radius:4px;'>''
           @ escapeHTML codeText @ ''</code>'' @ markerSpan [DEL]
      else ''<code style='background:#f1f5f9;padding:2px 4px;border-radius:4px;'>''
           @ escapeHTML codeText @ ''</code>'')"

text \<open>\<open>line.replace(/\*\*(.+?)\*\*/g, ...)\<close>: leftmost matches, the search resuming after each
  match (the match is the group and its four asterisks).\<close>

fun replaceBold :: "bool \<Rightarrow> string \<Rightarrow> string" where
  "replaceBold isActive [] = []"
| "replaceBold isActive (c # cs) =
     (case matchBold (c # cs) of
        Some boldText \<Rightarrow>
          boldTemplate isActive boldText @ replaceBold isActive (drop (length boldText + 3) cs)
      | None \<Rightarrow> c # replaceBold isActive cs)"

text \<open>\<open>line.replace(/`([^`]+)`/g, ...)\<close>: the match is the group and its two backticks.\<close>

fun replaceCode :: "bool \<Rightarrow> string \<Rightarrow> string" where
  "replaceCode isActive [] = []"
| "replaceCode isActive (c # cs) =
     (case matchCode (c # cs) of
        Some codeText \<Rightarrow>
          codeTemplate isActive codeText @ replaceCode isActive (drop (length codeText + 1) cs)
      | None \<Rightarrow> c # replaceCode isActive cs)"

definition hashStyle :: "bool \<Rightarrow> string" where
  "hashStyle isActive =
     (if isActive
      then ''opacity:0.5;color:#94a3b8;user-select:none;display:inline-block;width:1ch;''
      else ''opacity:0;visibility:hidden;user-select:none;display:inline-block;width:0;'')"

definition renderMarkdownLine :: "string \<Rightarrow> bool \<Rightarrow> string" where
  "renderMarkdownLine line isActive =
     (if isHeading line
      then ''<span style='' @ [SQ] @ hashStyle isActive @ [SQ]
           @ ''>#</span><span style='font-weight:700;font-size:1.3em;'>'' @ drop 1 line @ ''</span>''
      else replaceCode isActive (replaceBold isActive line))"

definition markdownToHTML :: "string \<Rightarrow> nat \<Rightarrow> string" where
  "markdownToHTML text activeLineIdx =
     joinWith ''<br>''
       (map (\<lambda>(idx, line). renderMarkdownLine line (idx = activeLineIdx))
            (enumerate 0 (splitLines text)))"

section \<open>The rendered surface\<close>

text \<open>
  Assigning \<open>editor.innerHTML\<close> hands the string to the browser, which builds the child
  nodes of the editor element. The model reads the markup the renderer emits: start tags with
  a quoted \<open>style\<close> attribute, end tags, the void \<open><br>\<close>, the five character
  references of \<open>escapeHTML\<close>, and text. A run of text between two tags is one text node, and
  an empty run is no node. The model is that of the browser for the markup of a document
  whose text outside inline code has no \<open><\<close> and no \<open>&\<close>. Such a character reaches the
  browser unescaped; there the model opens a tag at every \<open><\<close> and decodes only the five
  references with their semicolon, where the browser has its own tag-open rule, error
  recovery and table of references. Every general statement below is for documents
  without these two characters.
\<close>

datatype token = StartTag string string | EndTag string | Chars string

fun decodeEntities :: "string \<Rightarrow> string" where
  "decodeEntities [] = []"
| "decodeEntities (c # cs) =
     (if c = CHR ''&'' \<and> take 4 cs = ''amp;'' then CHR ''&'' # decodeEntities (drop 4 cs)
      else if c = CHR ''&'' \<and> take 3 cs = ''lt;'' then CHR ''<'' # decodeEntities (drop 3 cs)
      else if c = CHR ''&'' \<and> take 3 cs = ''gt;'' then CHR ''>'' # decodeEntities (drop 3 cs)
      else if c = CHR ''&'' \<and> take 5 cs = ''quot;'' then DQ # decodeEntities (drop 5 cs)
      else if c = CHR ''&'' \<and> take 4 cs = ''#39;'' then SQ # decodeEntities (drop 4 cs)
      else c # decodeEntities cs)"

definition flushText :: "string \<Rightarrow> token list" where
  "flushText txt = (if txt = [] then [] else [Chars (decodeEntities txt)])"

text \<open>The text of a tag between \<open><\<close> and \<open>>\<close>: its name and the value of its quoted attribute.\<close>

definition mkTag :: "string \<Rightarrow> token" where
  "mkTag tag =
     (if take 1 tag = ''/'' then EndTag (drop 1 tag)
      else StartTag (takeWhile (\<lambda>x. x \<noteq> CHR '' '') tag)
                    (takeWhile (\<lambda>x. x \<noteq> SQ) (drop 1 (dropWhile (\<lambda>x. x \<noteq> SQ) tag))))"

fun lexHTML :: "string \<Rightarrow> string \<Rightarrow> token list"
  and lexTag :: "string \<Rightarrow> string \<Rightarrow> token list" where
  "lexHTML txt [] = flushText txt"
| "lexHTML txt (c # cs) =
     (if c = CHR ''<'' then flushText txt @ lexTag [] cs else lexHTML (txt @ [c]) cs)"
| "lexTag tag [] = []"
| "lexTag tag (c # cs) =
     (if c = CHR ''>'' then mkTag tag # lexHTML [] cs else lexTag (tag @ [c]) cs)"

definition parseHTML :: "string \<Rightarrow> token list" where
  "parseHTML html = lexHTML [] html"

text \<open>
  The text nodes in document order, as \<open>document.createTreeWalker(element, SHOW_TEXT)\<close> visits
  them, each with the \<open>style\<close> attribute of its parent element. The editor element itself
  (\<open>editorStyle\<close>) sets neither \<open>user-select\<close> nor \<open>visibility\<close>: its style is modelled
  as empty. \<open><br>\<close> has no content and no end tag.
\<close>

fun textNodes :: "string list \<Rightarrow> token list \<Rightarrow> (string \<times> string) list" where
  "textNodes st [] = []"
| "textNodes st (Chars t # ts) = (t, (case st of [] \<Rightarrow> [] | s # _ \<Rightarrow> s)) # textNodes st ts"
| "textNodes st (StartTag n s # ts) = (if n = ''br'' then textNodes st ts else textNodes (s # st) ts)"
| "textNodes st (EndTag n # ts) = textNodes (tl st) ts"

text \<open>The value a \<open>style\<close> attribute declares for a property.\<close>

definition cssProp :: "string \<Rightarrow> string \<Rightarrow> string option" where
  "cssProp style prop =
     map_of (map (\<lambda>d. (takeWhile (\<lambda>x. x \<noteq> CHR '':'') d, drop 1 (dropWhile (\<lambda>x. x \<noteq> CHR '':'') d)))
                 (splitOn (CHR '';'') style)) prop"

text \<open>\<open>isCueNode\<close>: \<open>getComputedStyle(node.parentElement).userSelect === 'none'\<close>.\<close>

definition isCueNode :: "string \<times> string \<Rightarrow> bool" where
  "isCueNode node \<longleftrightarrow> cssProp (snd node) ''user-select'' = Some ''none''"

text \<open>A hidden marker: the style the renderer gives the \<open>#\<close> of a heading that is not active.\<close>

definition isHidden :: "string \<times> string \<Rightarrow> bool" where
  "isHidden node \<longleftrightarrow> cssProp (snd node) ''visibility'' = Some ''hidden''"

text \<open>The number of characters carried by the text nodes that are not hidden.\<close>

definition nonHiddenChars :: "token list \<Rightarrow> nat" where
  "nonHiddenChars element = sum_list (map (\<lambda>n. length (fst n)) (filter (\<lambda>n. \<not> isHidden n) (textNodes [] element)))"




text \<open>
  The nodes that a line without \<open><\<close> and \<open>&\<close> is rendered to. A run of text is one text
  node, none when empty; a marker span holds its marker; a bold match is a \<open>strong\<close>
  element and a code match a \<open>code\<close> element, each between two marker spans on the active
  line; a heading is its two spans.
\<close>

definition textToken :: "string \<Rightarrow> token list" where
  "textToken t = (if t = [] then [] else [Chars t])"

definition markerTokens :: "bool \<Rightarrow> string \<Rightarrow> token list" where
  "markerTokens isActive inner =
     (if isActive
      then [StartTag ''span'' ''opacity:0.5;color:#94a3b8;user-select:none;'', Chars inner,
            EndTag ''span'']
      else [])"

fun boldTokens :: "bool \<Rightarrow> string \<Rightarrow> string \<Rightarrow> token list" where
  "boldTokens isActive pending [] = textToken pending"
| "boldTokens isActive pending (c # cs) =
     (case matchBold (c # cs) of
        Some boldText \<Rightarrow>
          textToken pending @ markerTokens isActive ''**''
          @ [StartTag ''strong'' ''font-weight:800;'', Chars boldText, EndTag ''strong'']
          @ markerTokens isActive ''**''
          @ boldTokens isActive [] (drop (length boldText + 3) cs)
      | None \<Rightarrow> boldTokens isActive (pending @ [c]) cs)"








section \<open>Caret translator\<close>

text \<open>
  A collapsed selection: in the \<open>n\<close>-th text node (document order) at an offset, or, for the
  fallback of \<open>setCaretToOffset\<close>, at the end of the contents of the editor's last child.
\<close>

datatype selectionPoint = InText nat nat | EndOfLast

text \<open>The \<open>while (node)\<close> loop of \<open>setCaretToOffset\<close>: \<open>current\<close>, the index of \<open>node\<close>, the nodes
  still to visit, the requested offset.\<close>

fun caretWalk :: "nat \<Rightarrow> nat \<Rightarrow> (string \<times> string) list \<Rightarrow> nat \<Rightarrow> selectionPoint option" where
  "caretWalk current i [] offset = None"
| "caretWalk current i (node # nodes) offset =
     (if isCueNode node then caretWalk current (i + 1) nodes offset
      else (let next = current + length (fst node)
            in if offset \<le> next then Some (InText i (offset - current))
               else caretWalk next (i + 1) nodes offset))"

text \<open>\<open>setCaretToOffset(element, offset)\<close>: the new selection, given the one before the call.\<close>

definition setCaretToOffset :: "token list \<Rightarrow> nat \<Rightarrow> selectionPoint option \<Rightarrow> selectionPoint option" where
  "setCaretToOffset element offset sel =
     (case caretWalk 0 0 (textNodes [] element) offset of
        Some p \<Rightarrow> Some p
      | None \<Rightarrow> (if element \<noteq> [] then Some EndOfLast else sel))"

text \<open>
  \<open>getCaretCharacterOffsetWithin(element)\<close>: the length of \<open>preCaretRange.toString()\<close>, the
  range from the start of the editor to the caret. \<open>Range.toString\<close> concatenates the data of
  the text nodes in the range, whatever their style; a \<open><br>\<close> contributes nothing.
\<close>

definition getCaretCharacterOffsetWithin :: "token list \<Rightarrow> selectionPoint option \<Rightarrow> nat" where
  "getCaretCharacterOffsetWithin element sel =
     (case sel of
        None \<Rightarrow> 0
      | Some (InText n k) \<Rightarrow> sum_list (map (\<lambda>n. length (fst n)) (take n (textNodes [] element))) + k
      | Some EndOfLast \<Rightarrow> sum_list (map (\<lambda>n. length (fst n)) (textNodes [] element)))"

text \<open>\<open>getActiveLineIndex\<close>: the \<open>for\<close> loop over the lines, with \<open>count\<close> and \<open>idx\<close>.\<close>

fun activeLineLoop :: "nat \<Rightarrow> nat \<Rightarrow> string list \<Rightarrow> nat \<Rightarrow> nat" where
  "activeLineLoop count idx [] caretOffset = idx"
| "activeLineLoop count idx (line # lines) caretOffset =
     (if caretOffset \<le> count + length line then idx
      else activeLineLoop (count + length line + 1) (idx + 1) lines caretOffset)"

definition getActiveLineIndex :: "string \<Rightarrow> nat \<Rightarrow> nat" where
  "getActiveLineIndex text caretOffset = activeLineLoop 0 0 (splitLines text) caretOffset"

section \<open>Edit controller\<close>

datatype saveState = Idle | Saving | Saved

text \<open>What a timer does when it fires: the callback of \<open>triggerAutoSave\<close>, or the inner
  callback that puts the status back to idle.\<close>

datatype timerAction = Persist string | RevertIdle

text \<open>
  The component's refs and state (\<open>currentValueRef\<close>, \<open>lastCaretOffsetRef\<close>,
  \<open>lastLoadedValueRef\<close>, \<open>activeLineIdx\<close>, \<open>saveStatus\<close>, \<open>autosaveTimeout\<close>), the editor
  element (the markup last assigned to it and the caret in it), and the environment:
  the values passed to \<open>onChange\<close>, oldest first; \<open>localStorage\<close> and the values of its
  \<open>setItem\<close> calls, oldest first; the live timers, each with its id, its due time in
  milliseconds and its callback; the next timer id; the time in milliseconds.
\<close>

record editor =
  currentValue :: string
  lastCaretOffset :: nat
  lastLoadedValue :: string
  activeLineIdx :: nat
  saveStatus :: saveState
  autosaveTimeout :: "nat option"
  innerHTML :: string
  selection :: "selectionPoint option"
  changes :: "string list"
  localStorage :: "string \<rightharpoonup> string"
  setItems :: "string list"
  timers :: "(nat \<times> nat \<times> timerAction) list"
  nextTimer :: nat
  clock :: nat

definition AUTOSAVE_KEY :: string where
  "AUTOSAVE_KEY = ''hybrid-markdown-editor-autosave''"

text \<open>\<open>editor.innerHTML = html\<close>: the nodes that held the caret are gone, and a caret that was
  in the editor is left at its start, where \<open>getCaretCharacterOffsetWithin\<close> reads 0.\<close>

definition setInnerHTML :: "string \<Rightarrow> editor \<Rightarrow> editor" where
  "setInnerHTML html s = s\<lparr>innerHTML := html, selection := None\<rparr>"

definition placeCaret :: "nat \<Rightarrow> editor \<Rightarrow> editor" where
  "placeCaret offset s = s\<lparr>selection := setCaretToOffset (parseHTML (innerHTML s)) offset (selection s)\<rparr>"

text \<open>The component as first rendered with the prop \<open>value\<close>, in a browser whose storage is
  \<open>store\<close>: the refs start from the prop, \<open>dangerouslySetInnerHTML\<close> renders it.\<close>

definition mount :: "string \<Rightarrow> (string \<rightharpoonup> string) \<Rightarrow> editor" where
  "mount val store =
     \<lparr>currentValue = val, lastCaretOffset = 0, lastLoadedValue = val, activeLineIdx = 0,
      saveStatus = Idle, autosaveTimeout = None, innerHTML = markdownToHTML val 0,
      selection = None, changes = [], localStorage = store, setItems = [], timers = [],
      nextTimer = 1, clock = 0\<rparr>"

text \<open>The first \<open>useEffect\<close> (run once, on mount), for the props \<open>value\<close> and \<open>onChange\<close>
  (\<open>onChange\<close> is true when the host passed a callback).\<close>

definition mountEffect :: "string \<Rightarrow> bool \<Rightarrow> editor \<Rightarrow> editor" where
  "mountEffect val onChange s =
     (case localStorage s AUTOSAVE_KEY of
        None \<Rightarrow> s
      | Some saved \<Rightarrow>
          (if saved \<noteq> [] \<and> saved \<noteq> val
           then (let s1 = s\<lparr>currentValue := saved\<rparr>;
                     s2 = placeCaret (length saved) (setInnerHTML (markdownToHTML saved 0) s1)
                 in if onChange then s2\<lparr>changes := changes s2 @ [saved]\<rparr> else s2)
           else s))"

text \<open>The second \<open>useEffect\<close>, run when \<open>value\<close>, \<open>activeLineIdx\<close> or \<open>saveStatus\<close> changed.\<close>

definition syncEffect :: "string \<Rightarrow> editor \<Rightarrow> editor" where
  "syncEffect val s =
     (if val \<noteq> lastLoadedValue s \<and> val \<noteq> []
      then (let s1 = placeCaret (length val) (setInnerHTML (markdownToHTML val (activeLineIdx s)) s)
            in s1\<lparr>currentValue := val, lastLoadedValue := val\<rparr>)
      else placeCaret (lastCaretOffset s)
             (setInnerHTML (markdownToHTML (currentValue s) (activeLineIdx s)) s))"

subsection \<open>Timers and autosave\<close>

definition setTimeout :: "timerAction \<Rightarrow> nat \<Rightarrow> editor \<Rightarrow> nat \<times> editor" where
  "setTimeout action delay s =
     (nextTimer s,
      s\<lparr>timers := timers s @ [(nextTimer s, clock s + delay, action)], nextTimer := nextTimer s + 1\<rparr>)"

definition clearTimeout :: "nat \<Rightarrow> editor \<Rightarrow> editor" where
  "clearTimeout t s = s\<lparr>timers := filter (\<lambda>tm. fst tm \<noteq> t) (timers s)\<rparr>"

definition triggerAutoSave :: "string \<Rightarrow> editor \<Rightarrow> editor" where
  "triggerAutoSave val s =
     (let s1 = s\<lparr>saveStatus := Saving\<rparr>;
          s2 = (case autosaveTimeout s1 of Some t \<Rightarrow> clearTimeout t s1 | None \<Rightarrow> s1);
          (t, s3) = setTimeout (Persist val) 1000 s2
      in s3\<lparr>autosaveTimeout := Some t\<rparr>)"

text \<open>The callbacks.\<close>

fun fire :: "timerAction \<Rightarrow> editor \<Rightarrow> editor" where
  "fire (Persist val) s =
     (let s1 = s\<lparr>localStorage := (localStorage s)(AUTOSAVE_KEY \<mapsto> val), setItems := setItems s @ [val]\<rparr>;
          s2 = s1\<lparr>saveStatus := Saved\<rparr>
      in snd (setTimeout RevertIdle 1000 s2))"
| "fire RevertIdle s = s\<lparr>saveStatus := Idle\<rparr>"

text \<open>One millisecond passes: the timers now due leave the timer list and run, oldest first.\<close>

definition isDue :: "nat \<Rightarrow> nat \<times> nat \<times> timerAction \<Rightarrow> bool" where
  "isDue now tm \<longleftrightarrow> fst (snd tm) \<le> now"

definition tick :: "editor \<Rightarrow> editor" where
  "tick s =
     (let now = clock s + 1;
          due = filter (isDue now) (timers s);
          s1 = s\<lparr>clock := now, timers := filter (\<lambda>tm. \<not> isDue now tm) (timers s)\<rparr>
      in fold (\<lambda>tm. fire (snd (snd tm))) due s1)"

primrec elapse :: "nat \<Rightarrow> editor \<Rightarrow> editor" where
  "elapse 0 s = s"
| "elapse (Suc n) s = elapse n (tick s)"

text \<open>The live debounce timers.\<close>

definition isPersist :: "nat \<times> nat \<times> timerAction \<Rightarrow> bool" where
  "isPersist tm = (case snd (snd tm) of Persist _ \<Rightarrow> True | RevertIdle \<Rightarrow> False)"

definition debounceTimers :: "editor \<Rightarrow> (nat \<times> nat \<times> timerAction) list" where
  "debounceTimers s = filter isPersist (timers s)"

text \<open>Timer ids are not reused, and a live debounce timer is the one \<open>autosaveTimeout\<close>
  holds.\<close>

definition timersOk :: "editor \<Rightarrow> bool" where
  "timersOk s \<longleftrightarrow>
     distinct (map fst (timers s))
     \<and> (\<forall>tm \<in> set (timers s).
           fst tm < nextTimer s \<and> (isPersist tm \<longrightarrow> autosaveTimeout s = Some (fst tm)))"

datatype event = Notify string | Tick

fun run :: "event list \<Rightarrow> editor \<Rightarrow> editor" where
  "run [] s = s"
| "run (Notify val # evs) s = run evs (triggerAutoSave val s)"
| "run (Tick # evs) s = run evs (tick s)"

subsection \<open>Handlers\<close>

text \<open>\<open>handleBlur\<close>.\<close>

definition handleBlur :: "bool \<Rightarrow> editor \<Rightarrow> editor" where
  "handleBlur onChange s =
     triggerAutoSave (currentValue s)
       (if onChange then s\<lparr>changes := changes s @ [currentValue s]\<rparr> else s)"

text \<open>\<open>handleKeyDown\<close> for the Enter key, from the caret offset it has read.\<close>

definition enterAt :: "nat \<Rightarrow> editor \<Rightarrow> editor" where
  "enterAt caretOffset s =
     (let plain = take caretOffset (currentValue s) @ [NL] @ drop caretOffset (currentValue s);
          s1 = s\<lparr>currentValue := plain, lastCaretOffset := caretOffset + 1\<rparr>;
          beforeCaret = take caretOffset plain;
          linesBefore = splitLines beforeCaret;
          currentLineIdx = length linesBefore - 1;
          newLineIdx = currentLineIdx + 1;
          s2 = s1\<lparr>activeLineIdx := newLineIdx\<rparr>;
          s3 = setInnerHTML (markdownToHTML (currentValue s2) newLineIdx) s2
      in placeCaret (caretOffset + 1) s3)"

text \<open>The offset at which line \<open>i\<close> of a text starts: every earlier line and its newline.\<close>

definition lineStart :: "string \<Rightarrow> nat \<Rightarrow> nat" where
  "lineStart text i = sum_list (map (\<lambda>l. length l + 1) (take i (splitLines text)))"

definition handleKeyDown :: "string \<Rightarrow> editor \<Rightarrow> editor" where
  "handleKeyDown key s =
     (if key = ''Enter''
      then enterAt (getCaretCharacterOffsetWithin (parseHTML (innerHTML s)) (selection s)) s
      else s)"

section \<open>Line model: properties\<close>

lemma splitOn_nonempty: "splitOn sep s \<noteq> []"
  by (induction s) (auto split: list.splits)

lemma joinWith_Cons: "ls \<noteq> [] \<Longrightarrow> joinWith sep (l # ls) = l @ sep @ joinWith sep ls"
  by (cases ls) simp_all

lemma joinWith_splitOn: "joinWith [sep] (splitOn sep s) = s"
proof (induction s)
  case Nil
  show ?case by simp
next
  case (Cons c cs)
  obtain l ls where sp: "splitOn sep cs = l # ls"
    using splitOn_nonempty [of sep cs] by (cases "splitOn sep cs") auto
  show ?case
  proof (cases "c = sep")
    case True
    with Cons show ?thesis
      by (simp add: joinWith_Cons splitOn_nonempty)
  next
    case False
    with Cons sp show ?thesis
      by (cases ls) simp_all
  qed
qed

lemma splitOn_append_sep: "splitOn sep (a @ sep # b) = splitOn sep a @ splitOn sep b"
  by (induction a) (auto split: list.splits simp: splitOn_nonempty)

lemma lineStart_all: "ls \<noteq> [] \<Longrightarrow> sum_list (map (\<lambda>l. length l + 1) ls) = length (joinWith [sep] ls) + 1"
proof (induction ls)
  case Nil
  then show ?case by simp
next
  case (Cons l ls)
  then show ?case by (cases ls) (simp_all add: joinWith_Cons)
qed

lemma splitOn_snoc_sep: "splitOn sep (s @ [sep]) = splitOn sep s @ [[]]"
  by (induction s) (auto split: list.splits simp: splitOn_nonempty)

lemma length_splitOn: "length (splitOn sep s) = Suc (count_list s sep)"
  by (induction s) (auto split: list.splits simp: splitOn_nonempty)

text \<open>
  Claim C9. Joining the lines of any string with newlines gives the string back. The split
  keeps empty lines: there is one line more than there are newlines, and a trailing newline
  gives a trailing empty line.
\<close>

theorem line_model_round_trip:
  "joinLines (splitLines s) = s
   \<and> splitLines (s @ [NL]) = splitLines s @ [[]]
   \<and> length (splitLines s) = Suc (count_list s NL)"
  by (simp add: joinLines_def splitLines_def joinWith_splitOn splitOn_snoc_sep length_splitOn)

section \<open>Enter\<close>

text \<open>
  What the Enter handler does with the offset it has read: one newline goes into the
  document at that offset, the active line becomes the line that starts right after that
  newline, and the recorded caret offset is the offset plus one.
\<close>

lemma enterAt_state:
  assumes "offset \<le> length (currentValue s)"
  shows "currentValue (enterAt offset s)
           = take offset (currentValue s) @ [NL] @ drop offset (currentValue s)
       \<and> activeLineIdx (enterAt offset s) = length (splitLines (take offset (currentValue s)))
       \<and> activeLineIdx (enterAt offset s) < length (splitLines (currentValue (enterAt offset s)))
       \<and> lineStart (currentValue (enterAt offset s)) (activeLineIdx (enterAt offset s)) = offset + 1
       \<and> lastCaretOffset (enterAt offset s) = offset + 1"
proof -
  let ?d = "currentValue s"
  let ?a = "take offset ?d"
  let ?b = "drop offset ?d"
  have ne: "splitLines ?a \<noteq> []"
    by (simp add: splitLines_def splitOn_nonempty)
  have doc: "currentValue (enterAt offset s) = ?a @ [NL] @ ?b"
    by (simp add: enterAt_def Let_def placeCaret_def setInnerHTML_def)
  have idx: "activeLineIdx (enterAt offset s) = length (splitLines ?a)"
    using ne assms by (simp add: enterAt_def Let_def placeCaret_def setInnerHTML_def)
  have sp: "splitLines (?a @ [NL] @ ?b) = splitLines ?a @ splitLines ?b"
    by (simp add: splitLines_def splitOn_append_sep)
  have valid: "length (splitLines ?a) < length (splitLines (?a @ [NL] @ ?b))"
    unfolding sp using splitOn_nonempty [of NL ?b] by (simp add: splitLines_def)
  have start: "lineStart (?a @ [NL] @ ?b) (length (splitLines ?a)) = offset + 1"
    unfolding lineStart_def sp using lineStart_all [OF ne, of NL] assms
    by (simp add: splitLines_def joinWith_splitOn)
  have car: "lastCaretOffset (enterAt offset s) = offset + 1"
    by (simp add: enterAt_def Let_def placeCaret_def setInnerHTML_def)
  from doc idx valid start car show ?thesis by simp
qed

text \<open>
  Claim C3 at three carets. In \<open>abc\<close> with the caret after \<open>a\<close>, the handler reads offset 1
  and the document becomes \<open>a\<close>, newline, \<open>bc\<close> with line 1 active, but \<open>setCaretToOffset\<close>,
  asked for offset 2, puts the caret into the second text node \<open>bc\<close> at offset 1, after the
  \<open>b\<close> and not at the start of the new line: its walk does not count the line break. In
  \<open>abc\<close> with the caret at the end, the handler reads 3, the walk for offset 4 runs out of
  text nodes, the caret falls back to the end of the surface and reads 3, not 4. In the two
  lines \<open>a\<close> and \<open>b\<close> with the caret at the end of \<open>b\<close>, document offset 3, the handler reads
  2, since the reading does not count the line break either, and the newline goes in
  before \<open>b\<close>: the document becomes \<open>a\<close>, two newlines, \<open>b\<close>.
\<close>

theorem enter_caret_misplaced:
  "(let s = (mount ''abc'' Map.empty)\<lparr>selection := Some (InText 0 1)\<rparr>;
        s' = handleKeyDown ''Enter'' s
    in getCaretCharacterOffsetWithin (parseHTML (innerHTML s)) (selection s) = 1
       \<and> currentValue s' = ''a'' @ [NL] @ ''bc''
       \<and> activeLineIdx s' = 1
       \<and> lastCaretOffset s' = 2
       \<and> map fst (textNodes [] (parseHTML (innerHTML s'))) = [''a'', ''bc'']
       \<and> selection s' = Some (InText 1 1))
   \<and> (let s = (mount ''abc'' Map.empty)\<lparr>selection := Some (InText 0 3)\<rparr>;
          s' = handleKeyDown ''Enter'' s
      in getCaretCharacterOffsetWithin (parseHTML (innerHTML s)) (selection s) = 3
         \<and> currentValue s' = ''abc'' @ [NL]
         \<and> selection s' = Some EndOfLast
         \<and> getCaretCharacterOffsetWithin (parseHTML (innerHTML s')) (selection s') = 3)
   \<and> (let s = (mount (''a'' @ [NL] @ ''b'') Map.empty)\<lparr>selection := Some (InText 1 1)\<rparr>;
          s' = handleKeyDown ''Enter'' s
      in map fst (textNodes [] (parseHTML (innerHTML s))) = [''a'', ''b'']
         \<and> getCaretCharacterOffsetWithin (parseHTML (innerHTML s)) (selection s) = 2
         \<and> currentValue s' = ''a'' @ [NL, NL] @ ''b'')"
  by code_simp


section \<open>Renderer and caret translator on concrete lines\<close>

text \<open>
  Claim C4, as the code has it. Only the \<open>#\<close> of an inactive heading is hidden; the space
  after it stays in the heading text. The line \<open># Heading\<close> rendered inactive carries
  8 characters that are not hidden, the length of \<open> Heading\<close> with its leading space, and
  rendered active it carries 9, the length of the line.
\<close>

theorem heading_marker_counts:
  "nonHiddenChars (parseHTML (renderMarkdownLine ''# Heading'' False)) = length '' Heading''
   \<and> length '' Heading'' = 8
   \<and> nonHiddenChars (parseHTML (renderMarkdownLine ''# Heading'' True)) = length ''# Heading''
   \<and> length ''# Heading'' = 9"
  by code_simp

text \<open>The inactive count is not the length of \<open>Heading\<close>.\<close>

theorem heading_inactive_count_counterexample:
  "nonHiddenChars (parseHTML (renderMarkdownLine ''# Heading'' False)) \<noteq> length ''Heading''"
  by code_simp

text \<open>
  Claim C6 at the line made of \<open>x\<close> between two backticks, rendered active: each of the two
  marker spans around the code span holds the control character U+007F and not a
  backtick, so there are three text nodes and none carries a backtick, whereas the marker
  spans of bold carry the asterisks.
\<close>

theorem inline_code_active_drops_backticks:
  "renderMarkdownLine (BT # ''x'' @ [BT]) True
     = ''<span style='opacity:0.5;color:#94a3b8;user-select:none;'>'' @ [DEL]
       @ ''</span><code style='background:#f1f5f9;padding:2px 4px;border-radius:4px;'>x</code><span style='opacity:0.5;color:#94a3b8;user-select:none;'>''
       @ [DEL] @ ''</span>''
   \<and> map fst (textNodes [] (parseHTML (renderMarkdownLine (BT # ''x'' @ [BT]) True)))
       = [[DEL], ''x'', [DEL]]
   \<and> BT \<notin> set (renderMarkdownLine (BT # ''x'' @ [BT]) True)
   \<and> map fst (textNodes [] (parseHTML (renderMarkdownLine ''**x**'' True))) = [''**'', ''x'', ''**'']"
  by code_simp

text \<open>
  Claim C7 at lines that carry markup characters: plain text, bold text and heading text
  reach the markup as they are; only the text of inline code is escaped.
\<close>

theorem only_code_text_is_escaped:
  "renderMarkdownLine ''a<b>&c'' False = ''a<b>&c''
   \<and> renderMarkdownLine ''**<i>**'' False = ''<strong style='font-weight:800;'><i></strong>''
   \<and> renderMarkdownLine ''# <i>'' False
       = ''<span style='opacity:0;visibility:hidden;user-select:none;display:inline-block;width:0;'>#</span><span style='font-weight:700;font-size:1.3em;'> <i></span>''
   \<and> renderMarkdownLine (BT # ''<i>'' @ [BT]) False
       = ''<code style='background:#f1f5f9;padding:2px 4px;border-radius:4px;'>&lt;i&gt;</code>''"
  by code_simp

text \<open>
  Claim C1 at two documents. For the heading \<open># H\<close>, \<open>setCaretToOffset\<close> skips the \<open>#\<close> and
  puts offset 0 at the start of the heading text, where \<open>getCaretCharacterOffsetWithin\<close>,
  which counts the \<open>#\<close>, reads 1. For the two lines \<open>a\<close> and \<open>b\<close>, neither walk counts the
  line break: offset 3, the end of the document, is past the last text node, the caret falls
  back to the end, and reads 2.
\<close>

theorem caret_round_trip_fails:
  "(let element = parseHTML (markdownToHTML ''# H'' 0)
    in map fst (textNodes [] element) = [''#'', '' H'']
       \<and> setCaretToOffset element 0 None = Some (InText 1 0)
       \<and> getCaretCharacterOffsetWithin element (setCaretToOffset element 0 None) = 1)
   \<and> (let element = parseHTML (markdownToHTML (''a'' @ [NL] @ ''b'') 0)
      in map fst (textNodes [] element) = [''a'', ''b'']
         \<and> setCaretToOffset element 3 None = Some EndOfLast
         \<and> getCaretCharacterOffsetWithin element (setCaretToOffset element 3 None) = 2)"
  by code_simp

section \<open>Startup and external values\<close>

lemmas surface_defs = setInnerHTML_def placeCaret_def

text \<open>
  Claim C10, as the code has it. On mount, a snapshot stored under the autosave key that is
  not empty and differs from the initial value replaces the document, whatever the host
  passed: the surface is rendered from it with active line 0, the caret is placed by
  \<open>setCaretToOffset\<close> at its length, and \<open>onChange\<close>, when the host gave one, is called
  with it. With no snapshot, an empty one, or one equal to the initial value, nothing changes.
\<close>

theorem mount_adopts_nonempty_snapshot:
  "(localStorage s AUTOSAVE_KEY = Some saved \<and> saved \<noteq> [] \<and> saved \<noteq> val \<longrightarrow>
      currentValue (mountEffect val onChange s) = saved
      \<and> innerHTML (mountEffect val onChange s) = markdownToHTML saved 0
      \<and> selection (mountEffect val onChange s)
          = setCaretToOffset (parseHTML (markdownToHTML saved 0)) (length saved) None
      \<and> changes (mountEffect val onChange s) = changes s @ (if onChange then [saved] else []))
   \<and> (localStorage s AUTOSAVE_KEY = None \<or> localStorage s AUTOSAVE_KEY = Some []
        \<or> localStorage s AUTOSAVE_KEY = Some val \<longrightarrow>
      mountEffect val onChange s = s)"
  by (auto simp: mountEffect_def surface_defs Let_def)

text \<open>The snapshot \<open>xyz\<close> against the initial value \<open>abc\<close> is adopted and reported before any
  edit; the snapshot \<open>abc\<close> is not.\<close>

theorem mount_adopts_nonempty_snapshot_witness:
  "(let s = mount ''abc'' [AUTOSAVE_KEY \<mapsto> ''xyz'']
    in localStorage s AUTOSAVE_KEY = Some ''xyz'' \<and> ''xyz'' \<noteq> [] \<and> ''xyz'' \<noteq> ''abc''
       \<and> currentValue (mountEffect ''abc'' True s) = ''xyz''
       \<and> changes (mountEffect ''abc'' True s) = [''xyz''])
   \<and> (let s = mount ''abc'' [AUTOSAVE_KEY \<mapsto> ''abc'']
      in localStorage s AUTOSAVE_KEY = Some ''abc'' \<and> mountEffect ''abc'' True s = s)"
proof -
  define s where "s = mount ''abc'' [AUTOSAVE_KEY \<mapsto> ''xyz'']"
  define t where "t = mount ''abc'' [AUTOSAVE_KEY \<mapsto> ''abc'']"
  have hs: "localStorage s AUTOSAVE_KEY = Some ''xyz'' \<and> ''xyz'' \<noteq> [] \<and> ''xyz'' \<noteq> ''abc''"
    by (simp add: s_def mount_def)
  have cs: "changes s = []"
    by (simp add: s_def mount_def)
  have ht: "localStorage t AUTOSAVE_KEY = Some ''abc''"
    by (simp add: t_def mount_def)
  from mount_adopts_nonempty_snapshot [of s "''xyz''" "''abc''" True] hs cs
  have a: "currentValue (mountEffect ''abc'' True s) = ''xyz''
           \<and> changes (mountEffect ''abc'' True s) = [''xyz'']"
    by simp
  from mount_adopts_nonempty_snapshot [of t "''abc''" "''abc''" True] ht
  have b: "mountEffect ''abc'' True t = t"
    by simp
  show ?thesis
    unfolding Let_def s_def [symmetric] t_def [symmetric]
    using hs a ht b by simp
qed

text \<open>A stored snapshot that is the empty string differs from the initial value \<open>abc\<close> and is
  not adopted.\<close>

theorem empty_snapshot_counterexample:
  "(let s = mount ''abc'' [AUTOSAVE_KEY \<mapsto> []]
    in localStorage s AUTOSAVE_KEY = Some [] \<and> [] \<noteq> ''abc''
       \<and> currentValue (mountEffect ''abc'' True s) = ''abc''
       \<and> changes (mountEffect ''abc'' True s) = [])"
  by (simp add: mount_def mountEffect_def)

text \<open>
  Claim C5, as the code has it. A value from the host is adopted when it is not empty and
  differs from the value last adopted from the host (at first the initial value): the
  document and the last adopted value become that value, the surface is rendered from it
  with the active line index as it was, and the caret is placed by \<open>setCaretToOffset\<close> at
  the length of the value. Otherwise the document is kept, rendered again, and the caret is
  put back at the last recorded offset.
\<close>

theorem sync_adopts_new_loaded_value:
  "(val \<noteq> lastLoadedValue s \<and> val \<noteq> [] \<longrightarrow>
      currentValue (syncEffect val s) = val
      \<and> lastLoadedValue (syncEffect val s) = val
      \<and> activeLineIdx (syncEffect val s) = activeLineIdx s
      \<and> innerHTML (syncEffect val s) = markdownToHTML val (activeLineIdx s)
      \<and> selection (syncEffect val s)
          = setCaretToOffset (parseHTML (markdownToHTML val (activeLineIdx s))) (length val) None)
   \<and> (val = lastLoadedValue s \<or> val = [] \<longrightarrow>
      currentValue (syncEffect val s) = currentValue s
      \<and> lastLoadedValue (syncEffect val s) = lastLoadedValue s
      \<and> activeLineIdx (syncEffect val s) = activeLineIdx s
      \<and> innerHTML (syncEffect val s) = markdownToHTML (currentValue s) (activeLineIdx s)
      \<and> selection (syncEffect val s)
          = setCaretToOffset (parseHTML (markdownToHTML (currentValue s) (activeLineIdx s)))
              (lastCaretOffset s) None)"
  by (auto simp: syncEffect_def surface_defs Let_def)

text \<open>The value \<open>xyz\<close> given to an editor mounted with \<open>abc\<close> is adopted; \<open>abc\<close> again is not.\<close>

theorem sync_adopts_new_loaded_value_witness:
  "''xyz'' \<noteq> lastLoadedValue (mount ''abc'' Map.empty) \<and> ''xyz'' \<noteq> []
   \<and> currentValue (syncEffect ''xyz'' (mount ''abc'' Map.empty)) = ''xyz''
   \<and> lastLoadedValue (syncEffect ''xyz'' (mount ''abc'' Map.empty)) = ''xyz''
   \<and> ''abc'' = lastLoadedValue (mount ''abc'' Map.empty)
   \<and> currentValue (syncEffect ''abc'' (mount ''abc'' Map.empty)) = ''abc''"
proof -
  have l: "lastLoadedValue (mount ''abc'' Map.empty) = ''abc''"
    and c: "currentValue (mount ''abc'' Map.empty) = ''abc''"
    by (simp_all add: mount_def)
  from sync_adopts_new_loaded_value [of "''xyz''" "mount ''abc'' Map.empty"]
       sync_adopts_new_loaded_value [of "''abc''" "mount ''abc'' Map.empty"] l c
  show ?thesis
    by simp
qed

text \<open>
  Enter after \<open>a\<close> in \<open>abc\<close> makes line 1 active. A new value \<open>xyz\<close> from the host is then
  adopted with the active line still 1. After a blur has passed the document to
  \<open>onChange\<close>, the host passing that same string back is adopted too: it becomes the last
  adopted value and the caret moves from the second text node to the end.
\<close>

theorem sync_counterexample:
  "(let s0 = (mount ''abc'' Map.empty)\<lparr>selection := Some (InText 0 1)\<rparr>;
        s1 = syncEffect ''abc'' (handleKeyDown ''Enter'' s0);
        s2 = syncEffect ''xyz'' s1;
        s3 = syncEffect ''abc'' (handleBlur True s1);
        s4 = syncEffect (last (changes s3)) s3
    in activeLineIdx s1 = 1
       \<and> currentValue s2 = ''xyz'' \<and> activeLineIdx s2 = 1
       \<and> changes s3 = [''a'' @ [NL] @ ''bc'']
       \<and> lastLoadedValue s3 = ''abc''
       \<and> selection s3 = Some (InText 1 1)
       \<and> lastLoadedValue s4 = ''a'' @ [NL] @ ''bc''
       \<and> selection s4 = Some EndOfLast)"
  by code_simp

section \<open>Autosave scheduler\<close>

subsection \<open>Time passing\<close>

lemma tick_quiet:
  assumes "\<forall>tm \<in> set (timers s). clock s + 1 < fst (snd tm)"
  shows "tick s = s\<lparr>clock := clock s + 1\<rparr>"
proof -
  have "filter (isDue (clock s + 1)) (timers s) = []"
    using assms by (auto simp: filter_empty_conv isDue_def)
  moreover have "filter (\<lambda>tm. \<not> isDue (clock s + 1) tm) (timers s) = timers s"
    using assms by (auto simp: filter_id_conv isDue_def)
  ultimately show ?thesis
    by (simp add: tick_def Let_def)
qed

lemma elapse_quiet:
  "\<forall>tm \<in> set (timers s). clock s + d < fst (snd tm) \<Longrightarrow> elapse d s = s\<lparr>clock := clock s + d\<rparr>"
proof (induction d arbitrary: s)
  case 0
  show ?case by simp
next
  case (Suc d)
  from Suc.prems have q: "\<forall>tm \<in> set (timers s). clock s + 1 < fst (snd tm)"
    by auto
  have "elapse d (s\<lparr>clock := clock s + 1\<rparr>) = s\<lparr>clock := clock s + 1\<rparr>\<lparr>clock := clock s + 1 + d\<rparr>"
    using Suc.IH [of "s\<lparr>clock := clock s + 1\<rparr>"] Suc.prems by simp
  then show ?case
    by (simp add: tick_quiet [OF q])
qed

lemma elapse_add: "elapse (a + b) s = elapse b (elapse a s)"
  by (induction a arbitrary: s) simp_all

lemma fold_fire_revert:
  "\<forall>tm \<in> set due. snd (snd tm) = RevertIdle \<Longrightarrow>
   timers (fold (\<lambda>tm. fire (snd (snd tm))) due s) = timers s
   \<and> setItems (fold (\<lambda>tm. fire (snd (snd tm))) due s) = setItems s
   \<and> localStorage (fold (\<lambda>tm. fire (snd (snd tm))) due s) = localStorage s"
  by (induction due arbitrary: s) simp_all

lemma tick_revert:
  assumes "\<forall>tm \<in> set (timers s). snd (snd tm) = RevertIdle"
  shows "(\<forall>tm \<in> set (timers (tick s)). snd (snd tm) = RevertIdle)
         \<and> setItems (tick s) = setItems s \<and> localStorage (tick s) = localStorage s"
proof -
  have "\<forall>tm \<in> set (filter (isDue (clock s + 1)) (timers s)). snd (snd tm) = RevertIdle"
    using assms by simp
  from fold_fire_revert [OF this] assms show ?thesis
    by (simp add: tick_def Let_def)
qed

lemma elapse_revert:
  "\<forall>tm \<in> set (timers s). snd (snd tm) = RevertIdle \<Longrightarrow>
   setItems (elapse n s) = setItems s \<and> localStorage (elapse n s) = localStorage s"
proof (induction n arbitrary: s)
  case 0
  show ?case by simp
next
  case (Suc n)
  from tick_revert [OF Suc.prems] Suc.IH [of "tick s"] show ?case
    by simp
qed

text \<open>A single pending debounce timer fires once, a second after it was set.\<close>

lemma elapse_single_persist:
  assumes "timers s = [(k, clock s + 1000, Persist v)]"
  shows "setItems (elapse n s) = setItems s @ (if 1000 \<le> n then [v] else [])
         \<and> localStorage (elapse n s) AUTOSAVE_KEY
             = (if 1000 \<le> n then Some v else localStorage s AUTOSAVE_KEY)"
proof (cases "1000 \<le> n")
  case False
  then have "\<forall>tm \<in> set (timers s). clock s + n < fst (snd tm)"
    using assms by simp
  from elapse_quiet [OF this] False show ?thesis
    by simp
next
  case True
  define m where "m = n - 1000"
  have n: "n = 999 + (1 + m)"
    using True by (simp add: m_def)
  have "\<forall>tm \<in> set (timers s). clock s + 999 < fst (snd tm)"
    using assms by simp
  from elapse_quiet [OF this]
  have e1: "elapse 999 s = s\<lparr>clock := clock s + 999\<rparr>" .
  define s1 where "s1 = tick (s\<lparr>clock := clock s + 999\<rparr>)"
  have t1: "timers s1 = [(nextTimer s, clock s + 2000, RevertIdle)]"
    and i1: "setItems s1 = setItems s @ [v]"
    and l1: "localStorage s1 AUTOSAVE_KEY = Some v"
    using assms by (simp_all add: s1_def tick_def Let_def isDue_def setTimeout_def)
  have "\<forall>tm \<in> set (timers s1). snd (snd tm) = RevertIdle"
    by (simp add: t1)
  from elapse_revert [OF this, of m] i1 l1
  have "setItems (elapse m s1) = setItems s @ [v] \<and> localStorage (elapse m s1) AUTOSAVE_KEY = Some v"
    by simp
  moreover have "elapse n s = elapse m s1"
    unfolding n elapse_add e1 s1_def by simp
  ultimately show ?thesis
    using True by simp
qed

lemma triggerAutoSave_fields:
  "timers (triggerAutoSave v s)
     = (case autosaveTimeout s of
          Some t \<Rightarrow> filter (\<lambda>tm. fst tm \<noteq> t) (timers s) | None \<Rightarrow> timers s)
       @ [(nextTimer s, clock s + 1000, Persist v)]"
  "clock (triggerAutoSave v s) = clock s"
  "setItems (triggerAutoSave v s) = setItems s"
  "localStorage (triggerAutoSave v s) = localStorage s"
  "autosaveTimeout (triggerAutoSave v s) = Some (nextTimer s)"
  "nextTimer (triggerAutoSave v s) = nextTimer s + 1"
  by (simp_all add: triggerAutoSave_def setTimeout_def clearTimeout_def Let_def split: option.splits)

lemma three_notifies:
  fixes A B C :: string
  assumes idle: "timers s = []" and window: "d1 + d2 < 1000"
  defines "s3 \<equiv> triggerAutoSave C (elapse d2 (triggerAutoSave B (elapse d1 (triggerAutoSave A s))))"
  shows "timers s3 = [(nextTimer s + 2, clock s3 + 1000, Persist C)]"
    and "setItems s3 = setItems s"
    and "localStorage s3 = localStorage s"
proof -
  define a where "a = triggerAutoSave A s"
  have ta: "timers a = [(nextTimer s, clock s + 1000, Persist A)]"
    using idle by (simp add: a_def triggerAutoSave_fields split: option.splits)
  have ca: "clock a = clock s" and na: "nextTimer a = nextTimer s + 1"
    and aa: "autosaveTimeout a = Some (nextTimer s)"
    and ia: "setItems a = setItems s" and la: "localStorage a = localStorage s"
    by (simp_all add: a_def triggerAutoSave_fields)
  have "\<forall>tm \<in> set (timers a). clock a + d1 < fst (snd tm)"
    using window by (simp add: ta ca)
  from elapse_quiet [OF this]
  have ea: "elapse d1 a = a\<lparr>clock := clock a + d1\<rparr>" .
  define b where "b = triggerAutoSave B (a\<lparr>clock := clock a + d1\<rparr>)"
  have tb: "timers b = [(nextTimer s + 1, clock s + d1 + 1000, Persist B)]"
    by (simp add: b_def triggerAutoSave_fields ta ca na aa)
  have cb: "clock b = clock s + d1" and nb: "nextTimer b = nextTimer s + 2"
    and ab: "autosaveTimeout b = Some (nextTimer s + 1)"
    and ib: "setItems b = setItems s" and lb: "localStorage b = localStorage s"
    by (simp_all add: b_def triggerAutoSave_fields ca na ia la)
  have "\<forall>tm \<in> set (timers b). clock b + d2 < fst (snd tm)"
    using window by (simp add: tb cb)
  from elapse_quiet [OF this]
  have eb: "elapse d2 b = b\<lparr>clock := clock b + d2\<rparr>" .
  have s3: "s3 = triggerAutoSave C (b\<lparr>clock := clock b + d2\<rparr>)"
    by (simp only: s3_def a_def [symmetric] ea b_def [symmetric] eb)
  show "timers s3 = [(nextTimer s + 2, clock s3 + 1000, Persist C)]"
    by (simp add: s3 triggerAutoSave_fields tb ab nb)
  show "setItems s3 = setItems s"
    by (simp add: s3 triggerAutoSave_fields ib)
  show "localStorage s3 = localStorage s"
    by (simp add: s3 triggerAutoSave_fields lb)
qed


subsection \<open>At most one debounce timer\<close>

lemma timersOk_mount: "timersOk (mount v store)"
  by (simp add: timersOk_def mount_def)

lemma timersOk_triggerAutoSave:
  assumes "timersOk s"
  shows "timersOk (triggerAutoSave val s)"
    and "debounceTimers (triggerAutoSave val s) = [(nextTimer s, clock s + 1000, Persist val)]"
proof -
  let ?rest = "case autosaveTimeout s of
                 Some t \<Rightarrow> filter (\<lambda>tm. fst tm \<noteq> t) (timers s) | None \<Rightarrow> timers s"
  have sub: "set ?rest \<subseteq> set (timers s)"
    by (auto split: option.splits)
  have dist: "distinct (map fst ?rest)"
    using assms by (auto simp: timersOk_def distinct_map_filter split: option.splits)
  have nop: "\<forall>tm \<in> set ?rest. \<not> isPersist tm"
    using assms by (auto simp: timersOk_def split: option.splits)
  have lt: "\<forall>tm \<in> set ?rest. fst tm < nextTimer s"
    using assms sub by (auto simp: timersOk_def)
  have fresh: "nextTimer s \<notin> fst ` set ?rest"
    using lt by auto
  show "timersOk (triggerAutoSave val s)"
    unfolding timersOk_def triggerAutoSave_fields
    using dist nop lt fresh by (auto simp: isPersist_def)
  have "filter isPersist ?rest = []"
    using nop by (simp add: filter_empty_conv)
  then show "debounceTimers (triggerAutoSave val s) = [(nextTimer s, clock s + 1000, Persist val)]"
    by (simp add: debounceTimers_def triggerAutoSave_fields isPersist_def)
qed

lemma timersOk_fire: "timersOk s \<Longrightarrow> timersOk (fire act s)"
proof (cases act)
  case (Persist v)
  assume "timersOk s"
  then show ?thesis
    unfolding Persist by (fastforce simp: timersOk_def setTimeout_def Let_def isPersist_def)
next
  case RevertIdle
  assume "timersOk s"
  then show ?thesis
    unfolding RevertIdle by (simp add: timersOk_def)
qed

lemma timersOk_fold_fire:
  "timersOk s \<Longrightarrow> timersOk (fold (\<lambda>tm. fire (snd (snd tm))) due s)"
  by (induction due arbitrary: s) (simp_all add: timersOk_fire)

lemma timersOk_tick: "timersOk s \<Longrightarrow> timersOk (tick s)"
proof -
  assume ok: "timersOk s"
  let ?s1 = "s\<lparr>clock := clock s + 1, timers := filter (\<lambda>tm. \<not> isDue (clock s + 1) tm) (timers s)\<rparr>"
  have "timersOk ?s1"
    using ok by (auto simp: timersOk_def distinct_map_filter)
  from timersOk_fold_fire [OF this] show ?thesis
    by (simp add: tick_def Let_def)
qed

lemma timersOk_run: "timersOk s \<Longrightarrow> timersOk (run evs s)"
  by (induction evs s rule: run.induct) (simp_all add: timersOk_triggerAutoSave timersOk_tick)

lemma timersOk_one_debounce:
  assumes "timersOk s"
  shows "length (debounceTimers s) \<le> 1"
proof (rule ccontr)
  assume "\<not> length (debounceTimers s) \<le> 1"
  then obtain x y zs where xy: "debounceTimers s = x # y # zs"
    by (cases "debounceTimers s"; cases "tl (debounceTimers s)") auto
  have "set (debounceTimers s) \<subseteq> set (timers s)"
    by (auto simp: debounceTimers_def)
  moreover have "\<forall>tm \<in> set (debounceTimers s). isPersist tm"
    by (auto simp: debounceTimers_def)
  ultimately have "autosaveTimeout s = Some (fst x)" and "autosaveTimeout s = Some (fst y)"
    using assms xy by (auto simp: timersOk_def)
  then have "fst x = fst y"
    by simp
  moreover have "distinct (map fst (debounceTimers s))"
    using assms by (simp add: timersOk_def debounceTimers_def distinct_map_filter)
  ultimately show False
    by (simp add: xy)
qed

text \<open>
  Claim C8. Starting with no live timer, three calls of \<open>triggerAutoSave\<close> with the values
  \<open>A\<close>, \<open>B\<close>, \<open>C\<close>, the third less than one second after the first, lead to exactly one
  \<open>setItem\<close>, of \<open>C\<close>, one second after the third call and not before. Whatever calls and
  time steps follow a mount, at most one debounce timer is live, and right after a call the
  live debounce timer carries the value of that call.
\<close>

theorem autosave_coalesces:
  fixes A B C :: string
  assumes "timers s = []" and "d1 + d2 < 1000"
  shows "setItems (elapse n (triggerAutoSave C (elapse d2 (triggerAutoSave B
                     (elapse d1 (triggerAutoSave A s))))))
           = setItems s @ (if 1000 \<le> n then [C] else [])
       \<and> localStorage (elapse n (triggerAutoSave C (elapse d2 (triggerAutoSave B
                     (elapse d1 (triggerAutoSave A s)))))) AUTOSAVE_KEY
           = (if 1000 \<le> n then Some C else localStorage s AUTOSAVE_KEY)
       \<and> length (debounceTimers (run evs (mount v store))) \<le> 1
       \<and> map (\<lambda>tm. snd (snd tm)) (debounceTimers (triggerAutoSave val (run evs (mount v store))))
           = [Persist val]"
proof -
  let ?s3 = "triggerAutoSave C (elapse d2 (triggerAutoSave B (elapse d1 (triggerAutoSave A s))))"
  note three = three_notifies [OF assms, of C B A]
  from elapse_single_persist [OF three(1), of n] three(2,3)
  have scen: "setItems (elapse n ?s3) = setItems s @ (if 1000 \<le> n then [C] else [])
        \<and> localStorage (elapse n ?s3) AUTOSAVE_KEY
            = (if 1000 \<le> n then Some C else localStorage s AUTOSAVE_KEY)"
    by simp
  have ok: "timersOk (run evs (mount v store))"
    by (rule timersOk_run [OF timersOk_mount])
  from scen timersOk_one_debounce [OF ok] timersOk_triggerAutoSave(2) [OF ok, of val]
  show ?thesis
    by simp
qed

text \<open>Calls at 0, 200 and 500 milliseconds: no write 999 milliseconds after the last call, and
  the single write of \<open>C\<close> at 1000.\<close>

theorem autosave_coalesces_witness:
  "timers (mount [] Map.empty) = [] \<and> (200::nat) + 300 < 1000
   \<and> setItems (elapse 1000 (triggerAutoSave ''C'' (elapse 300 (triggerAutoSave ''B''
                  (elapse 200 (triggerAutoSave ''A'' (mount [] Map.empty))))))) = [''C'']
   \<and> setItems (elapse 999 (triggerAutoSave ''C'' (elapse 300 (triggerAutoSave ''B''
                  (elapse 200 (triggerAutoSave ''A'' (mount [] Map.empty))))))) = []"
proof -
  have idle: "timers (mount [] Map.empty) = []"
    by (simp add: mount_def)
  have window: "(200::nat) + 300 < 1000"
    by simp
  have none: "setItems (mount [] Map.empty) = []"
    by (simp add: mount_def)
  from autosave_coalesces [OF idle window, of 1000 "''C''" "''B''" "''A''"]
       autosave_coalesces [OF idle window, of 999 "''C''" "''B''" "''A''"] idle window none
  show ?thesis
    by simp
qed

section \<open>The rendered count\<close>





lemma matchBold_no_star: "c \<noteq> CHR ''*'' \<Longrightarrow> matchBold (c # cs) = None"
  by (simp add: matchBold_def)



























lemma matchCode_not_backtick: "c \<noteq> BT \<Longrightarrow> matchCode (c # cs) = None"
  by (simp add: matchCode_def Let_def)





lemma textNodes_boldTokens:
  "textNodes [] (boldTokens act acc l @ rest)
   = textNodes [] (boldTokens act acc l) @ textNodes [] rest"
  by (induction act acc l rule: boldTokens.induct)
     (auto simp: textToken_def markerTokens_def split: option.splits)

lemma nonHiddenChars_append_bold:
  "nonHiddenChars (boldTokens act acc l @ rest)
   = nonHiddenChars (boldTokens act acc l) + nonHiddenChars rest"
  by (simp add: nonHiddenChars_def textNodes_boldTokens)




















end
